theory Spec2Isabelle
  imports Main "HOL-Library.Multiset"
begin

section \<open>Strings and numbers as the JavaScript source has them\<close>

text \<open>
  A JavaScript string is modelled as a \<open>string\<close>; a character outside ASCII is written as
  the bytes of its UTF-8 encoding. The numbers of the catalogs are integers, modelled as
  \<open>int\<close>; a template literal \<^verbatim>\<open>${n}\<close> renders an integer in decimal, with a leading
  minus sign when it is negative.
\<close>

definition digit_char :: "nat \<Rightarrow> char" where
  "digit_char d = ''0123456789'' ! d"

function show_nat :: "nat \<Rightarrow> string" where
  "show_nat n = (if n < 10 then [digit_char n] else show_nat (n div 10) @ [digit_char (n mod 10)])"
  by pat_completeness auto
termination
  by (relation "measure (\<lambda>n. n)") auto

declare show_nat.simps [simp del]

definition show_int :: "int \<Rightarrow> string" where
  "show_int i = (if i < 0 then CHR ''-'' # show_nat (nat (- i)) else show_nat (nat i))"

section \<open>The catalogs (App.jsx, TONES and HUES)\<close>

record Tone =
  tone_id :: string
  tone_name :: string
  tone_label :: string
  tone_s :: int
  tone_l :: int
  tone_desc :: string

record Hue =
  hue_id :: int
  hue_name :: string
  hue_h :: int

definition TONES :: "Tone list" where
  "TONES = [
     \<lparr>tone_id = ''v'', tone_name = ''Vivid'', tone_label = ''01 Vivid'',
         tone_s = 100, tone_l = 50,
      tone_desc = [CHR 0xE7, CHR 0xB4, CHR 0x94, CHR 0xE7, CHR 0xB2, CHR 0xB9, CHR 0xE3,
         CHR 0x80, CHR 0x81, CHR 0xE9, CHR 0xA3, CHR 0xBD, CHR 0xE5, CHR 0x92, CHR 0x8C,
         CHR 0xE3, CHR 0x80, CHR 0x81, CHR 0xE9, CHR 0xAE, CHR 0xAE, CHR 0xE8, CHR 0xB1,
         CHR 0x94]\<rparr>,
     \<lparr>tone_id = ''b'', tone_name = ''Bright'', tone_label = ''02 Bright'',
         tone_s = 85, tone_l = 65,
      tone_desc = [CHR 0xE6, CHR 0x84, CHR 0x89, CHR 0xE6, CHR 0x82, CHR 0x85, CHR 0xE3,
         CHR 0x80, CHR 0x81, CHR 0xE6, CHR 0xB8, CHR 0x85, CHR 0xE6, CHR 0x99,
         CHR 0xB0]\<rparr>,
     \<lparr>tone_id = ''s'', tone_name = ''Strong'', tone_label = ''03 Strong'',
         tone_s = 70, tone_l = 45,
      tone_desc = [CHR 0xE5, CHR 0x8B, CHR 0x95, CHR 0xE6, CHR 0x84, CHR 0x9F, CHR 0xE3,
         CHR 0x80, CHR 0x81, CHR 0xE5, CHR 0xBC, CHR 0xB7, CHR 0xE7, CHR 0x83,
         CHR 0x88]\<rparr>,
     \<lparr>tone_id = ''dp'', tone_name = ''Deep'', tone_label = ''04 Deep'', tone_s = 80,
         tone_l = 30,
      tone_desc = [CHR 0xE5, CHR 0x82, CHR 0xB3, CHR 0xE7, CHR 0xB5, CHR 0xB1, CHR 0xE3,
         CHR 0x80, CHR 0x81, CHR 0xE6, CHR 0xB7, CHR 0xB1, CHR 0xE5, CHR 0xA5,
         CHR 0xA7]\<rparr>,
     \<lparr>tone_id = ''lt'', tone_name = ''Light'', tone_label = ''05 Light'',
         tone_s = 55, tone_l = 75,
      tone_desc = [CHR 0xE8, CHR 0x88, CHR 0x92, CHR 0xE9, CHR 0x81, CHR 0xA9, CHR 0xE3,
         CHR 0x80, CHR 0x81, CHR 0xE6, CHR 0xB8, CHR 0x85, CHR 0xE6, CHR 0x96,
         CHR 0xB0]\<rparr>,
     \<lparr>tone_id = ''sf'', tone_name = ''Soft'', tone_label = ''06 Soft'', tone_s = 40,
         tone_l = 60,
      tone_desc = [CHR 0xE6, CHR 0xBA, CHR 0xAB, CHR 0xE6, CHR 0x9F, CHR 0x94, CHR 0xE3,
         CHR 0x80, CHR 0x81, CHR 0xE8, CHR 0x87, CHR 0xAA, CHR 0xE7, CHR 0x84,
         CHR 0xB6]\<rparr>,
     \<lparr>tone_id = ''d'', tone_name = ''Dull'', tone_label = ''07 Dull'', tone_s = 40,
         tone_l = 45,
      tone_desc = [CHR 0xE7, CHR 0xA9, CHR 0xA9, CHR 0xE9, CHR 0x87, CHR 0x8D, CHR 0xE3,
         CHR 0x80, CHR 0x81, CHR 0xE6, CHR 0xA8, CHR 0xB8, CHR 0xE5, CHR 0xAF,
         CHR 0xA6]\<rparr>,
     \<lparr>tone_id = ''dk'', tone_name = ''Dark'', tone_label = ''08 Dark'', tone_s = 50,
         tone_l = 25,
      tone_desc = [CHR 0xE6, CHR 0x88, CHR 0x90, CHR 0xE7, CHR 0x86, CHR 0x9F, CHR 0xE3,
         CHR 0x80, CHR 0x81, CHR 0xE7, CHR 0xA9, CHR 0xA9, CHR 0xE5, CHR 0x81,
         CHR 0xA5]\<rparr>,
     \<lparr>tone_id = ''p'', tone_name = ''Pale'', tone_label = ''09 Pale'', tone_s = 25,
         tone_l = 88,
      tone_desc = [CHR 0xE7, CHR 0xB2, CHR 0xBE, CHR 0xE7, CHR 0xB7, CHR 0xBB, CHR 0xE3,
         CHR 0x80, CHR 0x81, CHR 0xE8, CHR 0xBC, CHR 0x95, CHR 0xE7, CHR 0x9B,
         CHR 0x88]\<rparr>,
     \<lparr>tone_id = ''ltg'', tone_name = ''Light Grayish'',
         tone_label = ''10 Light Grayish'', tone_s = 15, tone_l = 70,
      tone_desc = [CHR 0xE5, CHR 0xB9, CHR 0xB3, CHR 0xE9, CHR 0x9D, CHR 0x9C, CHR 0xE3,
         CHR 0x80, CHR 0x81, CHR 0xE6, CHR 0x9F, CHR 0x94, CHR 0xE5, CHR 0x92,
         CHR 0x8C]\<rparr>,
     \<lparr>tone_id = ''g'', tone_name = ''Grayish'', tone_label = ''11 Grayish'',
         tone_s = 15, tone_l = 45,
      tone_desc = [CHR 0xE5, CHR 0xAF, CHR 0xA7, CHR 0xE9, CHR 0x9D, CHR 0x9C, CHR 0xE3,
         CHR 0x80, CHR 0x81, CHR 0xE5, CHR 0x88, CHR 0xA5, CHR 0xE7, CHR 0xB7,
         CHR 0xBB]\<rparr>,
     \<lparr>tone_id = ''dkg'', tone_name = ''Dark Grayish'',
         tone_label = ''12 Dark Grayish'', tone_s = 10, tone_l = 25,
      tone_desc = [CHR 0xE5, CHR 0x8E, CHR 0x9A, CHR 0xE9, CHR 0x87, CHR 0x8D, CHR 0xE3,
         CHR 0x80, CHR 0x81, CHR 0xE5, CHR 0xA0, CHR 0x85, CHR 0xE5, CHR 0xAF,
         CHR 0xA6]\<rparr>]"

definition HUES :: "Hue list" where
  "HUES = [
     \<lparr>hue_id = 2, hue_name = [CHR 0xE7, CHR 0xB4, CHR 0x85, CHR 0xE8, CHR 0x89,
         CHR 0xB2] @ '' (Red)'', hue_h = 355\<rparr>,
     \<lparr>hue_id = 4, hue_name = [CHR 0xE7, CHR 0xB4, CHR 0x85, CHR 0xE6, CHR 0xA9,
         CHR 0x99, CHR 0xE8, CHR 0x89, CHR 0xB2] @ '' (Red-Orange)'', hue_h = 15\<rparr>,
     \<lparr>hue_id = 6, hue_name = [CHR 0xE6, CHR 0xA9, CHR 0x99, CHR 0xE8, CHR 0x89,
         CHR 0xB2] @ '' (Orange)'', hue_h = 35\<rparr>,
     \<lparr>hue_id = 8, hue_name = [CHR 0xE9, CHR 0xBB, CHR 0x83, CHR 0xE8, CHR 0x89,
         CHR 0xB2] @ '' (Yellow)'', hue_h = 50\<rparr>,
     \<lparr>hue_id = 10, hue_name = [CHR 0xE9, CHR 0xBB, CHR 0x83, CHR 0xE7, CHR 0xB6,
         CHR 0xA0, CHR 0xE8, CHR 0x89, CHR 0xB2] @ '' (Yellow-Green)'', hue_h = 75\<rparr>,
     \<lparr>hue_id = 12, hue_name = [CHR 0xE7, CHR 0xB6, CHR 0xA0, CHR 0xE8, CHR 0x89,
         CHR 0xB2] @ '' (Green)'', hue_h = 120\<rparr>,
     \<lparr>hue_id = 14, hue_name = [CHR 0xE8, CHR 0x97, CHR 0x8D, CHR 0xE7, CHR 0xB6,
         CHR 0xA0, CHR 0xE8, CHR 0x89, CHR 0xB2] @ '' (Blue-Green)'', hue_h = 160\<rparr>,
     \<lparr>hue_id = 16, hue_name = [CHR 0xE7, CHR 0xB6, CHR 0xA0, CHR 0xE8, CHR 0x97,
         CHR 0x8D, CHR 0xE8, CHR 0x89, CHR 0xB2] @ '' (Green-Blue)'', hue_h = 180\<rparr>,
     \<lparr>hue_id = 18, hue_name = [CHR 0xE8, CHR 0x97, CHR 0x8D, CHR 0xE8, CHR 0x89,
         CHR 0xB2] @ '' (Blue)'', hue_h = 210\<rparr>,
     \<lparr>hue_id = 20, hue_name = [CHR 0xE8, CHR 0x97, CHR 0x8D, CHR 0xE7, CHR 0xB4,
         CHR 0xAB, CHR 0xE8, CHR 0x89, CHR 0xB2] @ '' (Violet)'', hue_h = 260\<rparr>,
     \<lparr>hue_id = 22, hue_name = [CHR 0xE7, CHR 0xB4, CHR 0xAB, CHR 0xE8, CHR 0x89,
         CHR 0xB2] @ '' (Purple)'', hue_h = 290\<rparr>,
     \<lparr>hue_id = 24, hue_name = [CHR 0xE7, CHR 0xB4, CHR 0x85, CHR 0xE7, CHR 0xB4,
         CHR 0xAB, CHR 0xE8, CHR 0x89, CHR 0xB2] @ '' (Red-Purple)'', hue_h = 320\<rparr>]"

section \<open>Deriving a color (App.jsx, generateColor and generateFullDeck)\<close>

record ColorEntry =
  ce_id :: string
  toneId :: string
  toneName :: string
  toneLabel :: string
  hueName :: string
  css :: string
  desc :: string

text \<open>The template literal \<^verbatim>\<open>hsl(${h}, ${s}%, ${l}%)\<close> of the \<open>css\<close> field.\<close>

definition hsl :: "int \<Rightarrow> int \<Rightarrow> int \<Rightarrow> string" where
  "hsl h s l = ''hsl('' @ show_int h @ '', '' @ show_int s @ ''%, '' @ show_int l @ ''%)''"

text \<open>
  \<open>adjustedL\<close> is a local variable that starts as a copy of the number \<open>tone.l\<close>; the
  tone object is only read.
\<close>

definition generateColor :: "Tone \<Rightarrow> Hue \<Rightarrow> ColorEntry" where
  "generateColor tone hue =
     (let adjustedL = tone_l tone;
          adjustedL = (if (hue_h hue > 30 \<and> hue_h hue < 60) \<and> tone_l tone < 50
                       then adjustedL + 5 else adjustedL)
      in \<lparr>ce_id = tone_id tone @ ''-'' @ show_int (hue_id hue),
          toneId = tone_id tone,
          toneName = tone_name tone,
          toneLabel = tone_label tone,
          hueName = hue_name hue,
          css = hsl (hue_h hue) (tone_s tone) adjustedL,
          desc = tone_desc tone\<rparr>)"

text \<open>
  The two nested \<open>forEach\<close> loops push onto the local array \<open>deck\<close>: each is a fold that
  threads the array, and \<open>push\<close> appends at the end.
\<close>

definition generateFullDeck :: "ColorEntry list" where
  "generateFullDeck =
     fold (\<lambda>tone deck. fold (\<lambda>hue deck. deck @ [generateColor tone hue]) HUES deck) TONES []"


section \<open>JavaScript values read from storage and from a response\<close>

text \<open>
  The values \<open>JSON.parse\<close> and \<open>response.json()\<close> produce. Numbers are narrowed to
  integers: the code only tests them for truthiness or renders them. \<open>undefined\<close> is not
  a JSON value; where an expression may be \<open>undefined\<close> its type is \<open>json option\<close>, with
  \<open>None\<close> for \<open>undefined\<close>.
\<close>

datatype json = JNull | JBool bool | JNum int | JStr string | JArr "json list"
  | JObj "(string \<times> json) list"

datatype js_error = SyntaxError | TypeError

text \<open>What \<open>if (v)\<close>, \<open>!v\<close> and \<open>v || d\<close> test.\<close>

fun truthy :: "json \<Rightarrow> bool" where
  "truthy JNull = False"
| "truthy (JBool b) = b"
| "truthy (JNum n) = (n \<noteq> 0)"
| "truthy (JStr s) = (s \<noteq> [])"
| "truthy (JArr xs) = True"
| "truthy (JObj kvs) = True"

text \<open>\<open>a || d\<close>, where \<open>a\<close> may be \<open>undefined\<close> and \<open>d\<close> is a value.\<close>

definition or_else :: "json option \<Rightarrow> json \<Rightarrow> json" where
  "or_else a d = (case a of None \<Rightarrow> d | Some v \<Rightarrow> if truthy v then v else d)"

text \<open>
  The member \<open>k\<close> of a value other than \<open>null\<close>, for the names this program reads
  (\<open>baseUrl\<close>, \<open>apiKey\<close>, \<open>model\<close>, \<open>error\<close>, \<open>message\<close>, \<open>choices\<close>, \<open>content\<close>
  and the index \<open>0\<close>). An object built by \<open>JSON.parse\<close> keeps the last of two equal keys;
  an array and a string answer to the index only; a number and a boolean have none of them.
\<close>

fun member_of :: "json \<Rightarrow> string \<Rightarrow> json option" where
  "member_of (JObj kvs) k = map_of (rev kvs) k"
| "member_of (JArr xs) k = (if k = ''0'' \<and> xs \<noteq> [] then Some (hd xs) else None)"
| "member_of (JStr s) k = (if k = ''0'' \<and> s \<noteq> [] then Some (JStr [hd s]) else None)"
| "member_of v k = None"

text \<open>\<open>x.k\<close>: reading a member of \<open>null\<close> throws a TypeError.\<close>

definition get_prop :: "json \<Rightarrow> string \<Rightarrow> js_error + json option" where
  "get_prop x k = (case x of JNull \<Rightarrow> Inl TypeError | _ \<Rightarrow> Inr (member_of x k))"

text \<open>\<open>x?.k\<close>: \<open>undefined\<close> when \<open>x\<close> is \<open>undefined\<close> or \<open>null\<close>.\<close>

definition opt_prop :: "json option \<Rightarrow> string \<Rightarrow> json option" where
  "opt_prop x k = (case x of None \<Rightarrow> None | Some JNull \<Rightarrow> None | Some v \<Rightarrow> member_of v k)"

fun join_comma :: "string list \<Rightarrow> string" where
  "join_comma [] = []"
| "join_comma [x] = x"
| "join_comma (x # y # ys) = x @ '','' @ join_comma (y # ys)"

text \<open>What a template literal \<^verbatim>\<open>${v}\<close> renders.\<close>

fun to_string :: "json \<Rightarrow> string" where
  "to_string JNull = ''null''"
| "to_string (JBool b) = (if b then ''true'' else ''false'')"
| "to_string (JNum n) = show_int n"
| "to_string (JStr s) = s"
| "to_string (JArr xs) =
     join_comma (map (\<lambda>x. case x of JNull \<Rightarrow> [] | _ \<Rightarrow> to_string x) xs)"
| "to_string (JObj kvs) = ''[object Object]''"

section \<open>Settings (App.jsx and SeasonalColorAnalysis.jsx, getSettings)\<close>

text \<open>
  \<open>import.meta.env\<close>: each variable is a string or \<open>undefined\<close>. \<open>localStorage\<close> is a map
  from keys to strings; \<open>getItem\<close> gives \<open>null\<close> for a key it does not hold. The built-in
  \<open>JSON.parse\<close> is a parameter: \<open>None\<close> stands for the SyntaxError it throws on a text
  that is not JSON.
\<close>

record Env =
  VITE_API_KEY :: "string option"
  VITE_BASE_URL :: "string option"
  VITE_MODEL :: "string option"

record Settings =
  baseUrl :: json
  apiKey :: json
  model :: json

definition env_value :: "string option \<Rightarrow> json option" where
  "env_value v = map_option JStr v"

definition getSettings ::
  "(string \<Rightarrow> json option) \<Rightarrow> Env \<Rightarrow> (string \<rightharpoonup> string) \<Rightarrow> js_error + Settings" where
  "getSettings JSON_parse env localStorage =
     (let envApiKey = or_else (env_value (VITE_API_KEY env)) (JStr '''');
          envBaseUrl = or_else (env_value (VITE_BASE_URL env))
                         (JStr ''https://models.inference.ai.azure.com'');
          envModel = or_else (env_value (VITE_MODEL env)) (JStr ''gpt-4o'');
          saved = localStorage ''pccs_app_settings''
      in if saved \<noteq> None \<and> saved \<noteq> Some [] then
           (case JSON_parse (the saved) of
              None \<Rightarrow> Inl SyntaxError
            | Some parsed \<Rightarrow>
                (case get_prop parsed ''baseUrl'' of
                   Inl e \<Rightarrow> Inl e
                 | Inr b \<Rightarrow>
                     (case get_prop parsed ''apiKey'' of
                        Inl e \<Rightarrow> Inl e
                      | Inr a \<Rightarrow>
                          (case get_prop parsed ''model'' of
                             Inl e \<Rightarrow> Inl e
                           | Inr m \<Rightarrow>
                               Inr \<lparr>baseUrl = or_else b envBaseUrl,
                                    apiKey = or_else a envApiKey,
                                    model = or_else m envModel\<rparr>))))
         else Inr \<lparr>baseUrl = envBaseUrl, apiKey = envApiKey, model = envModel\<rparr>)"

text \<open>The copy in SeasonalColorAnalysis.jsx ("Import shared settings helper").\<close>

definition getSettings_Seasonal ::
  "(string \<Rightarrow> json option) \<Rightarrow> Env \<Rightarrow> (string \<rightharpoonup> string) \<Rightarrow> js_error + Settings" where
  "getSettings_Seasonal JSON_parse env localStorage =
     (let envApiKey = or_else (env_value (VITE_API_KEY env)) (JStr '''');
          envBaseUrl = or_else (env_value (VITE_BASE_URL env))
                         (JStr ''https://generativelanguage.googleapis.com/v1beta/openai/'');
          envModel = or_else (env_value (VITE_MODEL env)) (JStr ''gemini-1.5-flash'');
          saved = localStorage ''pccs_app_settings''
      in if saved \<noteq> None \<and> saved \<noteq> Some [] then
           (case JSON_parse (the saved) of
              None \<Rightarrow> Inl SyntaxError
            | Some parsed \<Rightarrow>
                (case get_prop parsed ''baseUrl'' of
                   Inl e \<Rightarrow> Inl e
                 | Inr b \<Rightarrow>
                     (case get_prop parsed ''apiKey'' of
                        Inl e \<Rightarrow> Inl e
                      | Inr a \<Rightarrow>
                          (case get_prop parsed ''model'' of
                             Inl e \<Rightarrow> Inl e
                           | Inr m \<Rightarrow>
                               Inr \<lparr>baseUrl = or_else b envBaseUrl,
                                    apiKey = or_else a envApiKey,
                                    model = or_else m envModel\<rparr>))))
         else Inr \<lparr>baseUrl = envBaseUrl, apiKey = envApiKey, model = envModel\<rparr>)"

text \<open>
  The precedence as the specification words it, for one field: the persisted value when
  present and not empty, otherwise the build-time value when present and not empty,
  otherwise the fallback.
\<close>

definition spec_resolve_field :: "string option \<Rightarrow> string option \<Rightarrow> string \<Rightarrow> string" where
  "spec_resolve_field persisted buildtime fallback =
     (case persisted of
        Some p \<Rightarrow> if p \<noteq> [] then p
                  else (case buildtime of Some b \<Rightarrow> if b \<noteq> [] then b else fallback
                        | None \<Rightarrow> fallback)
      | None \<Rightarrow> (case buildtime of Some b \<Rightarrow> if b \<noteq> [] then b else fallback
                 | None \<Rightarrow> fallback))"

text \<open>
  \<open>JSON.parse\<close> at the texts the examples of this theory store: two settings records,
  \<open>null\<close>, and (as every other text here) the text \<^verbatim>\<open>{bad\<close>, which is not JSON.
\<close>

definition JSON_parse_sample :: "string \<Rightarrow> json option" where
  \<open>JSON_parse_sample text =
     (if text = ''{"model":""}'' then Some (JObj [(''model'', JStr '''')])
      else if text = ''{"model":"gpt-4o-mini"}'' then Some (JObj [(''model'', JStr ''gpt-4o-mini'')])
      else if text = ''null'' then Some JNull
      else None)\<close>

section \<open>The advisory call (App.jsx, callOpenAI)\<close>

text \<open>
  The network is a parameter: \<open>fetch\<close> maps the request to what happens to it. The
  function returns its result together with the list of requests it issued. The text of
  an error the JavaScript engine raises itself is not part of the program: it comes with
  the outcome, and \<open>type_error_message\<close> is the message of the TypeError for a member
  read from \<open>null\<close>.
\<close>

record Payload =
  payload_model :: json
  payload_system :: string
  payload_user :: string
  payload_temperature :: string

record Request =
  req_url :: string
  req_method :: string
  req_content_type :: string
  req_authorization :: string
  req_body :: Payload

datatype fetch_outcome =
    Rejected string
  | Response bool int "string + json"

definition NO_API_KEY_MESSAGE :: string where
  "NO_API_KEY_MESSAGE =
     [CHR 0xE9, CHR 0x8C, CHR 0xAF, CHR 0xE8, CHR 0xAA, CHR 0xA4, CHR 0xEF, CHR 0xBC, CHR 0x9A,
     CHR 0xE6, CHR 0x9C, CHR 0xAA, CHR 0xE5, CHR 0x81, CHR 0xB5, CHR 0xE6, CHR 0xB8,
     CHR 0xAC, CHR 0xE5, CHR 0x88, CHR 0xB0] @ '' API Key'' @ [CHR 0xE3, CHR 0x80, CHR 0x82,
     CHR 0xE8, CHR 0xAB, CHR 0x8B, CHR 0xE8, CHR 0xA8, CHR 0xAD, CHR 0xE5, CHR 0xAE,
     CHR 0x9A, CHR 0xE7, CHR 0x92, CHR 0xB0, CHR 0xE5, CHR 0xA2, CHR 0x83, CHR 0xE8,
     CHR 0xAE, CHR 0x8A, CHR 0xE6, CHR 0x95, CHR 0xB8] @ '' (VITE_API_KEY) '' @ [CHR 0xE6,
     CHR 0x88, CHR 0x96, CHR 0xE5, CHR 0x9C, CHR 0xA8, CHR 0xE8, CHR 0xA8, CHR 0xAD,
     CHR 0xE5, CHR 0xAE, CHR 0x9A, CHR 0xE9, CHR 0x81, CHR 0xB8, CHR 0xE5, CHR 0x96,
     CHR 0xAE, CHR 0xE4, CHR 0xB8, CHR 0xAD, CHR 0xE6, CHR 0x89, CHR 0x8B, CHR 0xE5,
     CHR 0x8B, CHR 0x95, CHR 0xE8, CHR 0xBC, CHR 0xB8, CHR 0xE5, CHR 0x85, CHR 0xA5,
     CHR 0xE3, CHR 0x80, CHR 0x82]"

definition NO_RESPONSE_MESSAGE :: string where
  "NO_RESPONSE_MESSAGE =
     [CHR 0xE7, CHR 0x84, CHR 0xA1, CHR 0xE6, CHR 0xB3, CHR 0x95, CHR 0xE7, CHR 0x94, CHR 0xA2,
     CHR 0xE7, CHR 0x94, CHR 0x9F, CHR 0xE5, CHR 0x9B, CHR 0x9E, CHR 0xE6, CHR 0x87,
     CHR 0x89, CHR 0xE3, CHR 0x80, CHR 0x82]"

definition ERROR_PREFIX :: string where
  "ERROR_PREFIX = [CHR 0xE9, CHR 0x8C, CHR 0xAF, CHR 0xE8, CHR 0xAA, CHR 0xA4] @ '': ''"

text \<open>\<open>baseUrl.replace(/\/$/, '')\<close>: one slash at the end is removed.\<close>

definition strip_trailing_slash :: "string \<Rightarrow> string" where
  "strip_trailing_slash u = (if u \<noteq> [] \<and> last u = CHR ''/'' then butlast u else u)"

definition includes_str :: "string \<Rightarrow> string \<Rightarrow> bool" where
  "includes_str s t = list_ex (\<lambda>i. take (length t) (drop i s) = t) [0..<Suc (length s)]"

text \<open>
  The \<open>try\<close> block once \<open>fetch\<close> has settled: \<open>Rejected m\<close> is a rejected promise with
  message \<open>m\<close>; \<open>Response ok status body\<close> carries what \<open>response.json()\<close> gives,
  \<open>Inl m\<close> when it rejects with message \<open>m\<close>.
\<close>

definition read_response :: "string \<Rightarrow> fetch_outcome \<Rightarrow> json" where
  "read_response type_error_message outcome =
     (case outcome of
        Rejected m \<Rightarrow> JStr (ERROR_PREFIX @ m)
      | Response ok status body \<Rightarrow>
          if \<not> ok then
            (let errData = (case body of Inl m \<Rightarrow> JObj [] | Inr d \<Rightarrow> d)
             in case get_prop errData ''error'' of
                  Inl e \<Rightarrow> JStr (ERROR_PREFIX @ type_error_message)
                | Inr err \<Rightarrow>
                    JStr (ERROR_PREFIX @ ''API Error: '' @ show_int status @ '' ''
                          @ to_string (or_else (opt_prop err ''message'') (JStr ''''))))
          else
            (case body of
               Inl m \<Rightarrow> JStr (ERROR_PREFIX @ m)
             | Inr data \<Rightarrow>
                 (case get_prop data ''choices'' of
                    Inl e \<Rightarrow> JStr (ERROR_PREFIX @ type_error_message)
                  | Inr choices \<Rightarrow>
                      or_else (opt_prop (opt_prop (opt_prop choices ''0'') ''message'') ''content'')
                        (JStr NO_RESPONSE_MESSAGE))))"

text \<open>
  \<open>getSettings\<close> and \<open>baseUrl.replace\<close> run before the \<open>try\<close>: what they throw rejects
  the returned promise (\<open>Inl\<close>). A \<open>baseUrl\<close> that is not a string has no \<open>replace\<close>.
\<close>

definition callOpenAI ::
  "(string \<Rightarrow> json option) \<Rightarrow> Env \<Rightarrow> (string \<rightharpoonup> string) \<Rightarrow> (Request \<Rightarrow> fetch_outcome)
     \<Rightarrow> string \<Rightarrow> string \<Rightarrow> string \<Rightarrow> (js_error + json) \<times> Request list" where
  "callOpenAI JSON_parse env localStorage fetch type_error_message prompt systemInstruction =
     (case getSettings JSON_parse env localStorage of
        Inl e \<Rightarrow> (Inl e, [])
      | Inr settings \<Rightarrow>
          if \<not> truthy (apiKey settings) then (Inr (JStr NO_API_KEY_MESSAGE), [])
          else
            (case baseUrl settings of
               JStr b \<Rightarrow>
                 (let cleanBaseUrl = strip_trailing_slash b;
                      url = (if includes_str cleanBaseUrl ''chat/completions'' then cleanBaseUrl
                             else cleanBaseUrl @ ''/chat/completions'');
                      payload = \<lparr>payload_model = model settings,
                                 payload_system = systemInstruction,
                                 payload_user = prompt,
                                 payload_temperature = ''0.7''\<rparr>;
                      request = \<lparr>req_url = url,
                                 req_method = ''POST'',
                                 req_content_type = ''application/json'',
                                 req_authorization = ''Bearer '' @ to_string (apiKey settings),
                                 req_body = payload\<rparr>
                  in (Inr (read_response type_error_message (fetch request)), [request]))
             | _ \<Rightarrow> (Inl TypeError, [])))"

section \<open>The quiz (App.jsx, Flashcard and QuizView)\<close>

text \<open>
  \<open>Array.prototype.sort\<close> with the comparator \<^verbatim>\<open>() => 0.5 - Math.random()\<close>: what the
  array holds afterwards depends on the random draws and on the engine's algorithm. The
  outcome of each of the two sorts is a parameter, a function from the array before to the
  array after. \<open>filter\<close> builds a new array, so \<open>TONES\<close> itself is not reordered.
  \<open>TONES.find\<close> gives \<open>undefined\<close> (\<open>None\<close>) when no tone has the card's \<open>toneId\<close>.
\<close>

definition options ::
  "(Tone list \<Rightarrow> Tone list) \<Rightarrow> (Tone option list \<Rightarrow> Tone option list) \<Rightarrow> ColorEntry
     \<Rightarrow> Tone option list" where
  "options sort1 sort2 the_card =
     (let distractors = take 3 (sort1 (filter (\<lambda>t. tone_id t \<noteq> toneId the_card) TONES));
          correctTone = find (\<lambda>t. tone_id t = toneId the_card) TONES
      in sort2 (map Some distractors @ [correctTone]))"

text \<open>A sort, whatever its comparator answers, leaves the elements of the array as they are.\<close>

definition permutes :: "('a list \<Rightarrow> 'a list) \<Rightarrow> bool" where
  "permutes f = (\<forall>xs. mset (f xs) = mset xs)"

text \<open>
  The state of \<open>QuizView\<close>, one field per \<open>useState\<close>. \<open>currentCardIndex\<close> is a number:
  a natural number, or \<open>NaN\<close> (\<open>None\<close>), which \<open>% deck.length\<close> gives on an empty deck.
  \<open>selectedOption\<close> is a tone id or \<open>null\<close>.
\<close>

record QuizState =
  deck :: "ColorEntry list"
  currentCardIndex :: "nat option"
  showAnswer :: bool
  selectedOption :: "string option"
  score :: int
  streak :: int
  bestStreak :: int
  history :: "bool list"

text \<open>The initial values of the \<open>useState\<close> calls, once the effect has stored the deck.\<close>

definition QuizView_init :: "ColorEntry list \<Rightarrow> QuizState" where
  "QuizView_init d =
     \<lparr>deck = d, currentCardIndex = Some 0, showAnswer = False, selectedOption = None,
      score = 0, streak = 0, bestStreak = 0, history = []\<rparr>"

text \<open>\<open>h.slice(-4)\<close>: the last four elements, all of them when there are fewer.\<close>

definition slice_last4 :: "'a list \<Rightarrow> 'a list" where
  "slice_last4 h = drop (length h - 4) h"

text \<open>
  \<open>deck[currentCardIndex]\<close> is \<open>undefined\<close> outside the deck, and reading its \<open>toneId\<close>
  throws a TypeError before any setter runs. The function never reads \<open>showAnswer\<close>.
\<close>

definition handleGuess :: "QuizState \<Rightarrow> string \<Rightarrow> js_error + QuizState" where
  "handleGuess st tid =
     (case currentCardIndex st of
        None \<Rightarrow> Inl TypeError
      | Some i \<Rightarrow>
          if i < length (deck st) then
            (let currentCard = deck st ! i;
                 isCorrect = (tid = toneId currentCard);
                 st1 = st\<lparr>selectedOption := Some tid, showAnswer := True\<rparr>
             in if isCorrect then
                  (let newStreak = streak st1 + 1
                   in Inr (st1\<lparr>score := score st1 + 10,
                                streak := newStreak,
                                bestStreak := max (bestStreak st1) newStreak,
                                history := slice_last4 (history st1) @ [True]\<rparr>))
                else Inr (st1\<lparr>streak := 0, history := slice_last4 (history st1) @ [False]\<rparr>))
          else Inl TypeError)"

definition nextCard :: "QuizState \<Rightarrow> QuizState" where
  "nextCard st =
     st\<lparr>showAnswer := False,
        selectedOption := None,
        currentCardIndex :=
          (case currentCardIndex st of
             None \<Rightarrow> None
           | Some prev \<Rightarrow>
               if length (deck st) = 0 then None else Some ((prev + 1) mod length (deck st)))\<rparr>"

text \<open>
  What the rendered page lets the user do. \<open>QuizView\<close> renders only a loading text while
  the deck is empty; \<open>Flashcard\<close> renders the answer buttons (each calls \<open>onGuess\<close>, that is
  \<open>handleGuess\<close>) only while \<open>showAnswer\<close> is false, and the next button (\<open>nextCard\<close>)
  only while it is true. A click on a button that is not rendered does not happen: the
  state stays as it is.
\<close>

datatype click = ClickOption string | ClickNext

definition on_click :: "QuizState \<Rightarrow> click \<Rightarrow> js_error + QuizState" where
  "on_click st c =
     (if length (deck st) = 0 then Inr st
      else case c of
             ClickOption tid \<Rightarrow> if \<not> showAnswer st then handleGuess st tid else Inr st
           | ClickNext \<Rightarrow> if showAnswer st then Inr (nextCard st) else Inr st)"

text \<open>A session as a sequence of direct calls of the two handlers, stopped by the first throw.\<close>

datatype call = Guess string | Next

fun run :: "QuizState \<Rightarrow> call list \<Rightarrow> js_error + QuizState" where
  "run st [] = Inr st"
| "run st (Guess tid # cs) = (case handleGuess st tid of Inl e \<Rightarrow> Inl e | Inr st' \<Rightarrow> run st' cs)"
| "run st (Next # cs) = run (nextCard st) cs"

text \<open>
  The outcomes of the answers of such a session, in the order they were given, read off
  the deck alone: the card at index \<open>i\<close> is shown, and each \<open>Next\<close> moves on cyclically.
\<close>

fun outcomes :: "ColorEntry list \<Rightarrow> nat \<Rightarrow> call list \<Rightarrow> bool list" where
  "outcomes d i [] = []"
| "outcomes d i (Guess tid # cs) = (tid = toneId (d ! i)) # outcomes d i cs"
| "outcomes d i (Next # cs) = outcomes d ((i + 1) mod length d) cs"

text \<open>
  The state of a session on the unshuffled deck after one correct answer to its first
  card (a Vivid card): the result is showing.
\<close>

definition answered_once :: QuizState where
  "answered_once =
     \<lparr>deck = generateFullDeck, currentCardIndex = Some 0, showAnswer = True,
      selectedOption = Some ''v'', score = 10, streak = 1, bestStreak = 1, history = [True]\<rparr>"

section \<open>Characters of a rendered number\<close>

definition is_digit :: "char \<Rightarrow> bool" where
  "is_digit c = (c \<in> set ''0123456789'')"

section \<open>Rendered numbers determine the numbers\<close>

lemma digit_char_inj: "a < 10 \<Longrightarrow> b < 10 \<Longrightarrow> digit_char a = digit_char b \<Longrightarrow> a = b"
proof -
  assume a: "a < 10" and b: "b < 10" and e: "digit_char a = digit_char b"
  have d: "distinct ''0123456789''" by simp
  have "a < length ''0123456789''" "b < length ''0123456789''" using a b by simp_all
  with d have "(''0123456789'' ! a = ''0123456789'' ! b) = (a = b)" by (rule nth_eq_iff_index_eq)
  with e show "a = b" by (simp only: digit_char_def)
qed

lemma digit_char_in: "d < 10 \<Longrightarrow> is_digit (digit_char d)"
  unfolding digit_char_def is_digit_def by (rule nth_mem) simp

lemma show_nat_nonempty: "show_nat n \<noteq> []"
  by (subst show_nat.simps) simp

lemma show_nat_digits: "\<forall>c \<in> set (show_nat n). is_digit c"
proof (induction n rule: show_nat.induct)
  case (1 n)
  show ?case
  proof (cases "n < 10")
    case True
    then show ?thesis using digit_char_in [of n] by (subst show_nat.simps) simp
  next
    case False
    have "n mod 10 < 10" by simp
    then have "is_digit (digit_char (n mod 10))" by (rule digit_char_in)
    with False 1 show ?thesis by (subst show_nat.simps) simp
  qed
qed


lemma show_nat_inj: "show_nat m = show_nat n \<Longrightarrow> m = n"
proof (induction m arbitrary: n rule: show_nat.induct)
  case (1 m)
  note eq = \<open>show_nat m = show_nat n\<close>
  show ?case
  proof (cases "m < 10")
    case m: True
    show ?thesis
    proof (cases "n < 10")
      case True
      with m eq have "digit_char m = digit_char n"
        by (simp add: show_nat.simps [of m] show_nat.simps [of n])
      with m True show ?thesis by (rule digit_char_inj)
    next
      case False
      with m eq have "[digit_char m] = show_nat (n div 10) @ [digit_char (n mod 10)]"
        by (simp add: show_nat.simps [of m] show_nat.simps [of n])
      then have "show_nat (n div 10) = []" by simp
      then show ?thesis by (simp add: show_nat_nonempty)
    qed
  next
    case m: False
    show ?thesis
    proof (cases "n < 10")
      case True
      with m eq have "show_nat (m div 10) @ [digit_char (m mod 10)] = [digit_char n]"
        by (simp add: show_nat.simps [of m] show_nat.simps [of n])
      then have "show_nat (m div 10) = []" by simp
      then show ?thesis by (simp add: show_nat_nonempty)
    next
      case False
      with m eq have "show_nat (m div 10) @ [digit_char (m mod 10)]
          = show_nat (n div 10) @ [digit_char (n mod 10)]"
        by (simp add: show_nat.simps [of m] show_nat.simps [of n])
      then have e: "show_nat (m div 10) = show_nat (n div 10)"
        and d: "digit_char (m mod 10) = digit_char (n mod 10)" by simp_all
      from "1.IH" [OF m e] have q: "m div 10 = n div 10" .
      have "m mod 10 < 10" "n mod 10 < 10" by simp_all
      then have r: "m mod 10 = n mod 10" using d by (rule digit_char_inj)
      have "m = 10 * (m div 10) + m mod 10" by simp
      also have "\<dots> = 10 * (n div 10) + n mod 10" by (simp only: q r)
      also have "\<dots> = n" by simp
      finally show ?thesis .
    qed
  qed
qed

lemma show_nat_no_minus: "show_nat n \<noteq> CHR ''-'' # cs"
proof
  assume e: "show_nat n = CHR ''-'' # cs"
  then have "CHR ''-'' \<in> set (show_nat n)" by simp
  with show_nat_digits have "is_digit CHR ''-''" by blast
  then show False by (simp add: is_digit_def)
qed

lemma show_int_inj: "show_int i = show_int j \<Longrightarrow> i = j"
proof -
  assume e: "show_int i = show_int j"
  show ?thesis
  proof (cases "i < 0")
    case i: True
    show ?thesis
    proof (cases "j < 0")
      case True
      with i e have "show_nat (nat (- i)) = show_nat (nat (- j))" by (simp add: show_int_def)
      then have "nat (- i) = nat (- j)" by (rule show_nat_inj)
      with i True show ?thesis by simp
    next
      case False
      with i e have "show_nat (nat j) = CHR ''-'' # show_nat (nat (- i))"
        by (simp add: show_int_def)
      then show ?thesis by (simp add: show_nat_no_minus)
    qed
  next
    case i: False
    show ?thesis
    proof (cases "j < 0")
      case True
      with i e have "show_nat (nat i) = CHR ''-'' # show_nat (nat (- j))"
        by (simp add: show_int_def)
      then show ?thesis by (simp add: show_nat_no_minus)
    next
      case False
      with i e have "show_nat (nat i) = show_nat (nat j)" by (simp add: show_int_def)
      then have "nat i = nat j" by (rule show_nat_inj)
      with i False show ?thesis by simp
    qed
  qed
qed

lemma show_int_chars: "c \<in> set (show_int i) \<Longrightarrow> c = CHR ''-'' \<or> is_digit c"
  using show_nat_digits by (auto simp: show_int_def split: if_splits)

lemma split_at_sep:
  "c \<notin> set xs \<Longrightarrow> c \<notin> set ys \<Longrightarrow> xs @ c # r = ys @ c # r' \<Longrightarrow> xs = ys \<and> r = r'"
proof (induction xs arbitrary: ys)
  case Nil
  then show ?case by (cases ys) auto
next
  case (Cons x xs)
  then show ?case by (cases ys) auto
qed

lemma hsl_inj: "hsl h s l = hsl h' s' l' \<Longrightarrow> h = h' \<and> s = s' \<and> l = l'"
proof -
  assume e: "hsl h s l = hsl h' s' l'"
  have c: "CHR '','' \<notin> set (show_int i)" for i
  proof
    assume "CHR '','' \<in> set (show_int i)"
    then have "CHR '','' = CHR ''-'' \<or> is_digit CHR '',''" by (rule show_int_chars)
    then show False by (simp add: is_digit_def)
  qed
  have p: "CHR ''%'' \<notin> set (show_int i)" for i
  proof
    assume "CHR ''%'' \<in> set (show_int i)"
    then have "CHR ''%'' = CHR ''-'' \<or> is_digit CHR ''%''" by (rule show_int_chars)
    then show False by (simp add: is_digit_def)
  qed
  from e have 1: "show_int h @ CHR '','' # ('' '' @ show_int s @ ''%, '' @ show_int l @ ''%)'')
      = show_int h' @ CHR '','' # ('' '' @ show_int s' @ ''%, '' @ show_int l' @ ''%)'')"
    by (simp add: hsl_def)
  from split_at_sep [OF c c 1] have h: "show_int h = show_int h'"
    and 2: "show_int s @ CHR ''%'' # ('', '' @ show_int l @ ''%)'')
       = show_int s' @ CHR ''%'' # ('', '' @ show_int l' @ ''%)'')" by simp_all
  from split_at_sep [OF p p 2] have s: "show_int s = show_int s'"
    and 3: "show_int l @ CHR ''%'' # '')'' = show_int l' @ CHR ''%'' # '')''" by simp_all
  from split_at_sep [OF p p 3] have l: "show_int l = show_int l'" by simp
  from h s l show ?thesis by (simp add: show_int_inj)
qed

section \<open>The color of a pair and the full deck\<close>

lemma css_generateColor:
  "css (generateColor tone hue) =
     hsl (hue_h hue) (tone_s tone)
       (if 30 < hue_h hue \<and> hue_h hue < 60 \<and> tone_l tone < 50 then tone_l tone + 5
        else tone_l tone)"
  by (simp add: generateColor_def Let_def)

lemma ce_id_generateColor:
  "ce_id (generateColor tone hue) = tone_id tone @ CHR ''-'' # show_int (hue_id hue)"
  by (simp add: generateColor_def Let_def)

lemma toneId_generateColor: "toneId (generateColor tone hue) = tone_id tone"
  by (simp add: generateColor_def Let_def)

lemma length_TONES: "length TONES = 12"
  by (simp add: TONES_def)

lemma length_HUES: "length HUES = 12"
  by (simp add: HUES_def)

lemma distinct_tone_ids: "distinct (map tone_id TONES)"
  by (simp add: TONES_def)

lemma distinct_hue_ids: "distinct (map hue_id HUES)"
  by (simp add: HUES_def)

lemma tone_id_no_dash: "tone \<in> set TONES \<Longrightarrow> CHR ''-'' \<notin> set (tone_id tone)"
  by (auto simp: TONES_def)

lemma fold_push_inner:
  "fold (\<lambda>hue d. d @ [generateColor tone hue]) hs acc = acc @ map (generateColor tone) hs"
  by (induction hs arbitrary: acc) simp_all

lemma fold_push_outer:
  "fold (\<lambda>tone d. fold (\<lambda>hue d. d @ [generateColor tone hue]) hs d) ts acc =
     acc @ map (\<lambda>(tone, hue). generateColor tone hue) (List.product ts hs)"
  by (induction ts arbitrary: acc) (simp_all add: fold_push_inner comp_def)

lemma deck_product:
  "generateFullDeck = map (\<lambda>(tone, hue). generateColor tone hue) (List.product TONES HUES)"
  by (simp add: generateFullDeck_def fold_push_outer)

lemma length_generateFullDeck: "length generateFullDeck = 144"
  by (simp add: deck_product length_TONES length_HUES)

lemma deck_nth:
  assumes "i < 12" and "j < 12"
  shows "generateFullDeck ! (12 * i + j) = generateColor (TONES ! i) (HUES ! j)"
proof -
  from assms have "12 * i + j < 12 * 12" by simp
  then have lt: "12 * i + j < length TONES * length HUES"
    by (simp add: length_TONES length_HUES)
  from assms have d: "(12 * i + j) div 12 = i" and m: "(12 * i + j) mod 12 = j" by simp_all
  from lt have "List.product TONES HUES ! (12 * i + j)
      = (TONES ! ((12 * i + j) div length HUES), HUES ! ((12 * i + j) mod length HUES))"
    by (rule product_nth)
  then have "List.product TONES HUES ! (12 * i + j) = (TONES ! i, HUES ! j)"
    by (simp only: length_HUES d m)
  with lt show ?thesis by (simp add: deck_product)
qed

lemma ce_id_determines_pair:
  assumes t: "tone \<in> set TONES" and t': "tone' \<in> set TONES"
    and h: "hue \<in> set HUES" and h': "hue' \<in> set HUES"
    and e: "ce_id (generateColor tone hue) = ce_id (generateColor tone' hue')"
  shows "tone = tone' \<and> hue = hue'"
proof -
  from e have "tone_id tone @ CHR ''-'' # show_int (hue_id hue)
      = tone_id tone' @ CHR ''-'' # show_int (hue_id hue')"
    by (simp only: ce_id_generateColor)
  with tone_id_no_dash [OF t] tone_id_no_dash [OF t']
  have "tone_id tone = tone_id tone' \<and> show_int (hue_id hue) = show_int (hue_id hue')"
    by (rule split_at_sep)
  then have ti: "tone_id tone = tone_id tone'" and hi: "hue_id hue = hue_id hue'"
    by (simp_all add: show_int_inj)
  from distinct_tone_ids have "inj_on tone_id (set TONES)" by (simp add: distinct_map)
  with t t' ti have "tone = tone'" unfolding inj_on_def by blast
  moreover from distinct_hue_ids have "inj_on hue_id (set HUES)" by (simp add: distinct_map)
  with h h' hi have "hue = hue'" unfolding inj_on_def by blast
  ultimately show ?thesis by simp
qed

lemma distinct_deck_ids: "distinct (map ce_id generateFullDeck)"
proof -
  from distinct_tone_ids have "distinct TONES" by (simp add: distinct_map)
  moreover from distinct_hue_ids have "distinct HUES" by (simp add: distinct_map)
  ultimately have "distinct (List.product TONES HUES)" by (rule distinct_product)
  moreover have "inj_on (\<lambda>(tone, hue). ce_id (generateColor tone hue)) (set (List.product TONES HUES))"
    by (rule inj_onI) (auto dest: ce_id_determines_pair)
  ultimately have "distinct (map (\<lambda>(tone, hue). ce_id (generateColor tone hue)) (List.product TONES HUES))"
    by (simp add: distinct_map)
  moreover have "map ce_id generateFullDeck
      = map (\<lambda>(tone, hue). ce_id (generateColor tone hue)) (List.product TONES HUES)"
    by (simp add: deck_product split_def)
  ultimately show ?thesis by simp
qed

lemma filter_unique:
  "distinct (map f xs) \<Longrightarrow> x \<in> set xs \<Longrightarrow> P x \<Longrightarrow> filter (\<lambda>e. P e \<and> f e = f x) xs = [x]"
proof (induction xs)
  case Nil
  then show ?case by simp
next
  case (Cons y ys)
  show ?case
  proof (cases "y = x")
    case True
    with Cons.prems have "\<forall>e \<in> set ys. f e \<noteq> f x" by (auto simp: image_iff)
    then have "filter (\<lambda>e. P e \<and> f e = f x) ys = []" by (simp add: filter_empty_conv)
    with True Cons.prems show ?thesis by simp
  next
    case False
    with Cons.prems have "x \<in> set ys" and "f y \<noteq> f x" and "distinct (map f ys)" by auto
    with Cons.IH Cons.prems show ?thesis by simp
  qed
qed

lemma pair_in_deck:
  "tone \<in> set TONES \<Longrightarrow> hue \<in> set HUES \<Longrightarrow> generateColor tone hue \<in> set generateFullDeck"
  by (auto simp: deck_product intro!: image_eqI [where x = "(tone, hue)"])

text \<open>
  C1. For every tone and hue of the catalogs, the color \<open>generateColor\<close> returns is the
  \<open>hsl\<close> text of exactly one triple: its hue is the hue's angle, its saturation is the
  tone's saturation, and its lightness is the tone's lightness plus 5 when the angle is
  strictly between 30 and 60 and the tone's lightness is below 50, and the tone's lightness
  otherwise. The tone is an argument that is only read.
\<close>

theorem generateColor_yellow_band:
  assumes "tone \<in> set TONES" and "hue \<in> set HUES"
  shows "(css (generateColor tone hue) = hsl h s l) =
         (h = hue_h hue \<and> s = tone_s tone \<and>
          l = (if 30 < hue_h hue \<and> hue_h hue < 60 \<and> tone_l tone < 50 then tone_l tone + 5
               else tone_l tone))"
  by (auto simp only: css_generateColor dest: hsl_inj)

theorem generateColor_yellow_band_witness:
  "TONES ! 2 \<in> set TONES \<and> HUES ! 3 \<in> set HUES \<and> tone_l (TONES ! 2) = 45 \<and> hue_h (HUES ! 3) = 50
   \<and> css (generateColor (TONES ! 2) (HUES ! 3)) = hsl 50 70 50
   \<and> css (generateColor (TONES ! 1) (HUES ! 3)) = hsl 50 85 65
   \<and> css (generateColor (TONES ! 2) (HUES ! 4)) = hsl 75 70 45"
proof -
  have t2: "TONES ! 2 \<in> set TONES" and t1: "TONES ! 1 \<in> set TONES"
    by (rule nth_mem, simp add: length_TONES)+
  have h3: "HUES ! 3 \<in> set HUES" and h4: "HUES ! 4 \<in> set HUES"
    by (rule nth_mem, simp add: length_HUES)+
  show ?thesis
    using generateColor_yellow_band [OF t2 h3, of 50 70 50]
      generateColor_yellow_band [OF t1 h3, of 50 85 65]
      generateColor_yellow_band [OF t2 h4, of 75 70 45] t2 h3
    by (simp add: TONES_def HUES_def)
qed

text \<open>
  C2. \<open>generateFullDeck\<close> has 144 entries, the colors of the pairs of the two
  twelve-element catalogs in canonical order (tones outside, hues inside): the entry at
  \<open>12 * i + j\<close> is the color of tone \<open>i\<close> and hue \<open>j\<close>. The ids are pairwise different,
  and for every pair of the catalogs exactly one entry carries its tone id and its id
  \<open>toneId-hueId\<close>.
\<close>

theorem generateFullDeck_complete:
  "length TONES = 12 \<and> length HUES = 12 \<and> length generateFullDeck = 144
   \<and> generateFullDeck = map (\<lambda>(tone, hue). generateColor tone hue) (List.product TONES HUES)
   \<and> (\<forall>i<12. \<forall>j<12. generateFullDeck ! (12 * i + j) = generateColor (TONES ! i) (HUES ! j))
   \<and> distinct (map ce_id generateFullDeck)
   \<and> (\<forall>tone \<in> set TONES. \<forall>hue \<in> set HUES.
        filter (\<lambda>e. toneId e = tone_id tone \<and> ce_id e = tone_id tone @ ''-'' @ show_int (hue_id hue))
          generateFullDeck = [generateColor tone hue])"
proof -
  have "filter (\<lambda>e. toneId e = tone_id tone \<and> ce_id e = tone_id tone @ ''-'' @ show_int (hue_id hue))
          generateFullDeck = [generateColor tone hue]"
    if t: "tone \<in> set TONES" and h: "hue \<in> set HUES" for tone hue
  proof -
    have "filter (\<lambda>e. toneId e = tone_id tone \<and> ce_id e = ce_id (generateColor tone hue))
        generateFullDeck = [generateColor tone hue]"
      using distinct_deck_ids pair_in_deck [OF t h]
      by (rule filter_unique) (simp add: toneId_generateColor)
    then show ?thesis by (simp add: ce_id_generateColor)
  qed
  then show ?thesis
    using length_TONES length_HUES length_generateFullDeck deck_product deck_nth
      distinct_deck_ids by blast
qed

theorem generateFullDeck_complete_witness:
  "(2::nat) < 12 \<and> (3::nat) < 12 \<and> TONES ! 2 \<in> set TONES \<and> HUES ! 3 \<in> set HUES
   \<and> generateFullDeck ! 27 = generateColor (TONES ! 2) (HUES ! 3)
   \<and> ce_id (generateFullDeck ! 27) = ''s-8''
   \<and> filter (\<lambda>e. toneId e = ''s'' \<and> ce_id e = ''s-8'') generateFullDeck = [generateFullDeck ! 27]"
proof -
  have t2: "TONES ! 2 \<in> set TONES" by (rule nth_mem) (simp add: length_TONES)
  have h3: "HUES ! 3 \<in> set HUES" by (rule nth_mem) (simp add: length_HUES)
  from generateFullDeck_complete
  have n: "\<forall>i<12. \<forall>j<12. generateFullDeck ! (12 * i + j) = generateColor (TONES ! i) (HUES ! j)"
    and f: "\<forall>tone \<in> set TONES. \<forall>hue \<in> set HUES.
        filter (\<lambda>e. toneId e = tone_id tone \<and> ce_id e = tone_id tone @ ''-'' @ show_int (hue_id hue))
          generateFullDeck = [generateColor tone hue]"
    by blast+
  from n [rule_format, of 2 3]
  have n27: "generateFullDeck ! 27 = generateColor (TONES ! 2) (HUES ! 3)" by simp
  have ids: "tone_id (TONES ! 2) = ''s''" "show_int (hue_id (HUES ! 3)) = ''8''"
    by (simp_all add: TONES_def HUES_def show_int_def show_nat.simps digit_char_def)
  from f t2 h3 have "filter (\<lambda>e. toneId e = tone_id (TONES ! 2)
        \<and> ce_id e = tone_id (TONES ! 2) @ ''-'' @ show_int (hue_id (HUES ! 3)))
          generateFullDeck = [generateColor (TONES ! 2) (HUES ! 3)]" by blast
  with n27 ids t2 h3 show ?thesis by (simp add: ce_id_generateColor)
qed

section \<open>The quiz handlers\<close>

lemma handleGuess_result:
  assumes "currentCardIndex st = Some i" and "i < length (deck st)"
  shows "handleGuess st tid =
     Inr (st\<lparr>selectedOption := Some tid,
             showAnswer := True,
             score := (if tid = toneId (deck st ! i) then score st + 10 else score st),
             streak := (if tid = toneId (deck st ! i) then streak st + 1 else 0),
             bestStreak := (if tid = toneId (deck st ! i)
                            then max (bestStreak st) (streak st + 1) else bestStreak st),
             history := slice_last4 (history st) @ [tid = toneId (deck st ! i)]\<rparr>)"
  using assms by (simp add: handleGuess_def Let_def)

lemma slice_last4_short: "length h \<le> 4 \<Longrightarrow> slice_last4 h = h"
  by (simp add: slice_last4_def)

lemma last5_step:
  "drop (length (slice_last4 h @ b # os) - 5) (slice_last4 h @ b # os)
     = drop (length (h @ b # os) - 5) (h @ b # os)"
proof (cases "length h \<le> 4")
  case True
  then show ?thesis by (simp add: slice_last4_short)
next
  case False
  then have "length h - 4 + (length os + 1 - 1) = length h + (length os + 1) - 5" by simp
  with False show ?thesis by (simp add: slice_last4_def add.commute)
qed

lemma run_history:
  assumes "currentCardIndex st = Some i" and "i < length (deck st)"
    and "length (history st) \<le> 5"
  shows "\<exists>st'. run st cs = Inr st' \<and> deck st' = deck st
           \<and> history st' = drop (length (history st @ outcomes (deck st) i cs) - 5)
                                (history st @ outcomes (deck st) i cs)"
  using assms
proof (induction cs arbitrary: st i)
  case Nil
  then show ?case by simp
next
  case (Cons c cs)
  show ?case
  proof (cases c)
    case (Guess tid)
    let ?b = "tid = toneId (deck st ! i)"
    let ?st1 = "st\<lparr>selectedOption := Some tid,
             showAnswer := True,
             score := (if ?b then score st + 10 else score st),
             streak := (if ?b then streak st + 1 else 0),
             bestStreak := (if ?b then max (bestStreak st) (streak st + 1) else bestStreak st),
             history := slice_last4 (history st) @ [?b]\<rparr>"
    from Cons.prems(1,2) have hg: "handleGuess st tid = Inr ?st1" by (rule handleGuess_result)
    have "currentCardIndex ?st1 = Some i" and "i < length (deck ?st1)"
      and "length (history ?st1) \<le> 5"
      using Cons.prems by (simp_all add: slice_last4_def)
    from Cons.IH [OF this] obtain st' where r: "run ?st1 cs = Inr st'"
      and d: "deck st' = deck ?st1"
      and h: "history st' = drop (length (history ?st1 @ outcomes (deck ?st1) i cs) - 5)
                                (history ?st1 @ outcomes (deck ?st1) i cs)"
      by blast
    from h have "history st' = drop (length (slice_last4 (history st) @ ?b # outcomes (deck st) i cs) - 5)
        (slice_last4 (history st) @ ?b # outcomes (deck st) i cs)" by simp
    then have "history st' = drop (length (history st @ ?b # outcomes (deck st) i cs) - 5)
        (history st @ ?b # outcomes (deck st) i cs)" by (simp only: last5_step)
    with Guess hg r d show ?thesis by simp
  next
    case Next
    from Cons.prems have ne: "length (deck st) \<noteq> 0" by auto
    with Cons.prems have "currentCardIndex (nextCard st) = Some ((i + 1) mod length (deck st))"
      and "(i + 1) mod length (deck st) < length (deck (nextCard st))"
      and "length (history (nextCard st)) \<le> 5"
      by (simp_all add: nextCard_def)
    from Cons.IH [OF this] Next show ?thesis by (simp add: nextCard_def)
  qed
qed

lemma length_outcomes: "length (outcomes d i cs) = length (filter (\<lambda>c. c \<noteq> Next) cs)"
proof (induction cs arbitrary: i)
  case Nil
  show ?case by simp
next
  case (Cons c cs)
  then show ?case by (cases c) simp_all
qed

lemma fresh_deck_head: "toneId (generateFullDeck ! 0) = ''v''"
  using deck_nth [of 0 0] by (simp add: toneId_generateColor TONES_def)

lemma fresh_deck_nonempty: "0 < length generateFullDeck"
  by (simp add: length_generateFullDeck)

text \<open>
  C3. In a state awaiting an answer (\<open>showAnswer\<close> false, the index inside the deck),
  \<open>handleGuess\<close> returns a state showing the result. When the submitted id is the card's
  \<open>toneId\<close>, the score grows by exactly 10, the streak by 1, and the best streak becomes
  the maximum of its old value and the new streak; otherwise the score and the best streak
  stay and the streak is 0. In both cases the outcome is put at the end of the history
  (after its last four entries; after all of it while it holds at most four).
\<close>

theorem handleGuess_scoring:
  assumes "\<not> showAnswer st" and "currentCardIndex st = Some i" and "i < length (deck st)"
  shows "\<exists>st'. handleGuess st tid = Inr st' \<and> showAnswer st' \<and> selectedOption st' = Some tid
           \<and> deck st' = deck st \<and> currentCardIndex st' = currentCardIndex st
           \<and> (tid = toneId (deck st ! i) \<longrightarrow>
                score st' = score st + 10 \<and> streak st' = streak st + 1
                \<and> bestStreak st' = max (bestStreak st) (streak st')
                \<and> history st' = slice_last4 (history st) @ [True])
           \<and> (tid \<noteq> toneId (deck st ! i) \<longrightarrow>
                score st' = score st \<and> streak st' = 0 \<and> bestStreak st' = bestStreak st
                \<and> history st' = slice_last4 (history st) @ [False])
           \<and> (length (history st) \<le> 4 \<longrightarrow>
                history st' = history st @ [tid = toneId (deck st ! i)])"
  using assms(2,3) by (simp add: handleGuess_result slice_last4_short)

theorem handleGuess_scoring_witness:
  "\<not> showAnswer (QuizView_init generateFullDeck)
   \<and> currentCardIndex (QuizView_init generateFullDeck) = Some 0
   \<and> 0 < length (deck (QuizView_init generateFullDeck))
   \<and> (\<exists>st'. handleGuess (QuizView_init generateFullDeck) ''v'' = Inr st' \<and> showAnswer st'
          \<and> score st' = 10 \<and> streak st' = 1 \<and> bestStreak st' = 1 \<and> history st' = [True])
   \<and> (\<exists>st'. handleGuess (QuizView_init generateFullDeck) ''b'' = Inr st' \<and> showAnswer st'
          \<and> score st' = 0 \<and> streak st' = 0 \<and> bestStreak st' = 0 \<and> history st' = [False])"
proof -
  let ?st = "QuizView_init generateFullDeck"
  have a: "\<not> showAnswer ?st" and b: "currentCardIndex ?st = Some 0"
    by (simp_all add: QuizView_init_def)
  have c: "0 < length (deck ?st)"
    using fresh_deck_nonempty by (simp add: QuizView_init_def)
  have v: "toneId (deck ?st ! 0) = ''v''" by (simp add: QuizView_init_def fresh_deck_head)
  have i: "score ?st = 0" "streak ?st = 0" "bestStreak ?st = 0" "history ?st = []"
    by (simp_all add: QuizView_init_def)
  from handleGuess_scoring [OF a b c, of "''v''"] v i
  have 1: "\<exists>st'. handleGuess ?st ''v'' = Inr st' \<and> showAnswer st'
          \<and> score st' = 10 \<and> streak st' = 1 \<and> bestStreak st' = 1 \<and> history st' = [True]"
    by (auto simp: slice_last4_def)
  from handleGuess_scoring [OF a b c, of "''b''"] v i
  have 2: "\<exists>st'. handleGuess ?st ''b'' = Inr st' \<and> showAnswer st'
          \<and> score st' = 0 \<and> streak st' = 0 \<and> bestStreak st' = 0 \<and> history st' = [False]"
    by (auto simp: slice_last4_def)
  from a b c 1 2 show ?thesis by blast
qed


text \<open>
  C7. From a fresh session on a deck that is not empty, any sequence of calls of the two
  handlers runs without a throw, and afterwards the history is the last five outcomes of
  the submitted answers in the order they were given: with \<open>n\<close> answers submitted it has
  length \<open>min n 5\<close>, the oldest outcomes dropped first.
\<close>

theorem history_window:
  assumes "d \<noteq> []"
  shows "\<exists>st'. run (QuizView_init d) cs = Inr st'
           \<and> history st' = drop (length (outcomes d 0 cs) - 5) (outcomes d 0 cs)
           \<and> length (outcomes d 0 cs) = length (filter (\<lambda>c. c \<noteq> Next) cs)
           \<and> length (history st') = min (length (filter (\<lambda>c. c \<noteq> Next) cs)) 5"
proof -
  let ?st = "QuizView_init d"
  from assms have "currentCardIndex ?st = Some 0" and "0 < length (deck ?st)"
    and "length (history ?st) \<le> 5"
    by (simp_all add: QuizView_init_def)
  from run_history [OF this, of cs] obtain st' where r: "run ?st cs = Inr st'"
    and h: "history st' = drop (length (outcomes d 0 cs) - 5) (outcomes d 0 cs)"
    by (auto simp: QuizView_init_def)
  from h have "length (history st') = min (length (outcomes d 0 cs)) 5" by auto
  with r h show ?thesis by (simp add: length_outcomes)
qed

theorem history_window_witness:
  "[generateColor (TONES ! 0) (HUES ! 0), generateColor (TONES ! 1) (HUES ! 0)] \<noteq> []
   \<and> (\<exists>st'. run (QuizView_init [generateColor (TONES ! 0) (HUES ! 0),
                                  generateColor (TONES ! 1) (HUES ! 0)])
               [Guess ''v'', Next, Guess ''v'', Next, Guess ''b'', Next, Guess ''b'', Next,
                Guess ''v'', Next, Guess ''v'', Next, Guess ''v''] = Inr st'
          \<and> history st' = [False, True, True, False, True])"
proof -
  let ?d = "[generateColor (TONES ! 0) (HUES ! 0), generateColor (TONES ! 1) (HUES ! 0)]"
  let ?cs = "[Guess ''v'', Next, Guess ''v'', Next, Guess ''b'', Next, Guess ''b'', Next,
                Guess ''v'', Next, Guess ''v'', Next, Guess ''v'']"
  have ne: "?d \<noteq> []" by simp
  have t: "tone_id (TONES ! 0) = ''v''" "tone_id (TONES ! Suc 0) = ''b''"
    by (simp_all add: TONES_def)
  have o: "outcomes ?d 0 ?cs = [True, False, False, True, True, False, True]"
    by (simp add: toneId_generateColor t)
  from history_window [OF ne, of ?cs] obtain st' where r: "run (QuizView_init ?d) ?cs = Inr st'"
    and h: "history st' = drop (length (outcomes ?d 0 ?cs) - 5) (outcomes ?d 0 ?cs)"
    by blast
  from h have "history st' = [False, True, True, False, True]" unfolding o by simp
  with r ne show ?thesis by blast
qed

section \<open>The answer options\<close>

lemma distinct_TONES: "distinct TONES"
  using distinct_tone_ids by (simp add: distinct_map)

lemma inj_on_tone_id: "inj_on tone_id (set TONES)"
  using distinct_tone_ids by (simp add: distinct_map)

lemma permutes_rev: "permutes rev"
  by (simp add: permutes_def)

lemma find_first_filtered: "filter P xs = x # r \<Longrightarrow> find P xs = Some x"
  by (induction xs) (auto split: if_splits)

lemma map_Some_the: "\<forall>x \<in> set xs. \<exists>t. x = Some t \<Longrightarrow> map Some (map the xs) = xs"
  by (induction xs) auto

lemma correct_tone_once:
  assumes "k \<in> tone_id ` set TONES"
  shows "\<exists>c. find (\<lambda>t. tone_id t = k) TONES = Some c \<and> c \<in> set TONES \<and> tone_id c = k
           \<and> filter (\<lambda>t. tone_id t = k) TONES = [c]"
proof -
  from assms obtain c where c: "c \<in> set TONES" and k: "tone_id c = k" by auto
  have "filter (\<lambda>t. True \<and> tone_id t = tone_id c) TONES = [c]"
    using distinct_tone_ids c by (rule filter_unique) simp
  with k have f: "filter (\<lambda>t. tone_id t = k) TONES = [c]" by simp
  from f have "find (\<lambda>t. tone_id t = k) TONES = Some c" by (rule find_first_filtered)
  with f c k show ?thesis by simp
qed

lemma others_length:
  assumes "k \<in> tone_id ` set TONES"
  shows "length (filter (\<lambda>t. tone_id t \<noteq> k) TONES) = 11"
proof -
  from correct_tone_once [OF assms] have "length (filter (\<lambda>t. tone_id t = k) TONES) = 1"
    by auto
  moreover have "length (filter (\<lambda>t. tone_id t = k) TONES)
      + length (filter (\<lambda>t. \<not> tone_id t = k) TONES) = length TONES"
    by (rule sum_length_filter_compl)
  ultimately show ?thesis by (simp add: length_TONES)
qed

lemma options_multiset:
  assumes p1: "permutes sort1" and p2: "permutes sort2"
    and k: "toneId the_card \<in> tone_id ` set TONES"
  shows "\<exists>ts c ds. options sort1 sort2 the_card = map Some ts
           \<and> mset ts = mset (ds @ [c])
           \<and> find (\<lambda>t. tone_id t = toneId the_card) TONES = Some c
           \<and> c \<in> set TONES \<and> tone_id c = toneId the_card
           \<and> length ds = 3 \<and> distinct ds
           \<and> set ds \<subseteq> set (filter (\<lambda>t. tone_id t \<noteq> toneId the_card) TONES)"
proof -
  let ?F = "filter (\<lambda>t. tone_id t \<noteq> toneId the_card) TONES"
  let ?D = "take 3 (sort1 ?F)"
  from correct_tone_once [OF k] obtain c
    where f: "find (\<lambda>t. tone_id t = toneId the_card) TONES = Some c"
      and c: "c \<in> set TONES" "tone_id c = toneId the_card" by blast
  from p1 have m1: "mset (sort1 ?F) = mset ?F" by (simp add: permutes_def)
  have "distinct ?F" using distinct_TONES by simp
  with mset_eq_imp_distinct_iff [OF m1] have d1: "distinct (sort1 ?F)" by simp
  from m1 have s1: "set (sort1 ?F) = set ?F" by (rule mset_eq_setD)
  from m1 have "length (sort1 ?F) = length ?F" by (rule mset_eq_length)
  with others_length [OF k] have l1: "length (sort1 ?F) = 11" by simp
  have dD: "distinct ?D" using d1 by simp
  have lD: "length ?D = 3" using l1 by simp
  have sD: "set ?D \<subseteq> set ?F" using s1 set_take_subset [of 3 "sort1 ?F"] by simp
  let ?L = "map Some ?D @ [Some c]"
  have o: "options sort1 sort2 the_card = sort2 ?L"
    by (simp add: options_def Let_def f)
  from p2 have m2: "mset (sort2 ?L) = mset ?L" by (simp add: permutes_def)
  then have "set (sort2 ?L) = set ?L" by (rule mset_eq_setD)
  then have "\<forall>x \<in> set (sort2 ?L). \<exists>t. x = Some t" by auto
  then have ms: "map Some (map the (sort2 ?L)) = sort2 ?L" by (rule map_Some_the)
  have "mset (map the (sort2 ?L)) = image_mset the (mset (sort2 ?L))" by simp
  also have "\<dots> = image_mset the (mset ?L)" by (simp only: m2)
  also have "\<dots> = mset (?D @ [c])" by (simp add: image_mset.compositionality comp_def)
  finally have mt: "mset (map the (sort2 ?L)) = mset (?D @ [c])" .
  from o ms have "options sort1 sort2 the_card = map Some (map the (sort2 ?L))" by simp
  with mt f c lD dD sD show ?thesis by blast
qed

text \<open>
  C4. For every card whose \<open>toneId\<close> is the id of a tone of the catalog, and whatever
  the two random sorts do to the order of their arrays, \<open>options\<close> holds exactly four
  tones, none of them \<open>undefined\<close>, pairwise different (also by id) and all from the
  catalog; exactly one has the card's \<open>toneId\<close>, it is the tone \<open>find\<close> returns, and the
  other three are tones of the eleven remaining ones.
\<close>

theorem options_four_distinct:
  assumes "permutes sort1" and "permutes sort2"
    and "toneId the_card \<in> tone_id ` set TONES"
  shows "\<exists>ts. options sort1 sort2 the_card = map Some ts
           \<and> length ts = 4 \<and> distinct ts \<and> distinct (map tone_id ts) \<and> set ts \<subseteq> set TONES
           \<and> filter (\<lambda>t. tone_id t = toneId the_card) ts
               = [the (find (\<lambda>t. tone_id t = toneId the_card) TONES)]
           \<and> length (filter (\<lambda>t. tone_id t \<noteq> toneId the_card) ts) = 3
           \<and> length (filter (\<lambda>t. tone_id t \<noteq> toneId the_card) TONES) = 11"
proof -
  let ?k = "toneId the_card"
  from options_multiset [OF assms] obtain ts c ds
    where o: "options sort1 sort2 the_card = map Some ts"
      and m: "mset ts = mset (ds @ [c])"
      and f: "find (\<lambda>t. tone_id t = ?k) TONES = Some c"
      and c: "c \<in> set TONES" "tone_id c = ?k"
      and ds: "length ds = 3" "distinct ds" "set ds \<subseteq> set (filter (\<lambda>t. tone_id t \<noteq> ?k) TONES)"
    by blast
  from ds(3) have dk: "\<forall>t \<in> set ds. tone_id t \<noteq> ?k" and dT: "set ds \<subseteq> set TONES" by auto
  from dk c(2) have cn: "c \<notin> set ds" by auto
  from m have len: "length ts = length (ds @ [c])" by (rule mset_eq_length)
  from m have st: "set ts = set (ds @ [c])" by (rule mset_eq_setD)
  from ds(2) cn have "distinct (ds @ [c])" by simp
  with mset_eq_imp_distinct_iff [OF m] have dist: "distinct ts" by simp
  from st dT c(1) have sub: "set ts \<subseteq> set TONES" by auto
  from sub inj_on_tone_id have "inj_on tone_id (set ts)" by (rule inj_on_subset [rotated])
  with dist have dmap: "distinct (map tone_id ts)" by (simp add: distinct_map)
  have "mset (filter (\<lambda>t. tone_id t = ?k) ts) = filter_mset (\<lambda>t. tone_id t = ?k) (mset (ds @ [c]))"
    by (simp only: mset_filter m)
  also have "\<dots> = mset (filter (\<lambda>t. tone_id t = ?k) (ds @ [c]))" by (simp only: mset_filter)
  also from dk c(2) have "filter (\<lambda>t. tone_id t = ?k) (ds @ [c]) = [c]"
    by (simp add: filter_empty_conv)
  finally have "mset (filter (\<lambda>t. tone_id t = ?k) ts) = mset [c]" .
  then have "mset (filter (\<lambda>t. tone_id t = ?k) ts) = {#c#}" by (simp only: mset.simps)
  then have one: "filter (\<lambda>t. tone_id t = ?k) ts = [c]" by (rule mset_single_iff [THEN iffD1])
  have "length (filter (\<lambda>t. tone_id t = ?k) ts) + length (filter (\<lambda>t. \<not> tone_id t = ?k) ts)
      = length ts" by (rule sum_length_filter_compl)
  with one len ds(1) have three: "length (filter (\<lambda>t. tone_id t \<noteq> ?k) ts) = 3" by simp
  from len ds(1) have four: "length ts = 4" by simp
  from one f have one': "filter (\<lambda>t. tone_id t = ?k) ts
      = [the (find (\<lambda>t. tone_id t = ?k) TONES)]" by simp
  from o four dist dmap sub one' three others_length [OF assms(3)]
  show ?thesis by blast
qed

theorem options_four_distinct_witness:
  "permutes (rev :: Tone list \<Rightarrow> Tone list)
   \<and> permutes (rev :: Tone option list \<Rightarrow> Tone option list)
   \<and> toneId (generateColor (TONES ! 0) (HUES ! 0)) \<in> tone_id ` set TONES
   \<and> (\<exists>ts. options rev rev (generateColor (TONES ! 0) (HUES ! 0)) = map Some ts
          \<and> length ts = 4 \<and> distinct ts
          \<and> length (filter (\<lambda>t. tone_id t = ''v'') ts) = 1)
   \<and> map (map_option tone_id) (options rev rev (generateColor (TONES ! 0) (HUES ! 0)))
        = [Some ''v'', Some ''ltg'', Some ''g'', Some ''dkg'']"
proof -
  let ?c = "generateColor (TONES ! 0) (HUES ! 0)"
  have v: "toneId ?c = ''v''" by (simp add: toneId_generateColor TONES_def)
  have k: "toneId ?c \<in> tone_id ` set TONES" unfolding v by (simp add: TONES_def)
  have p1: "permutes (rev :: Tone list \<Rightarrow> Tone list)"
    and p2: "permutes (rev :: Tone option list \<Rightarrow> Tone option list)"
    by (rule permutes_rev)+
  from options_four_distinct [OF p1 p2 k]
  have 1: "\<exists>ts. options rev rev ?c = map Some ts \<and> length ts = 4 \<and> distinct ts
          \<and> length (filter (\<lambda>t. tone_id t = ''v'') ts) = 1"
    unfolding v by auto
  have 2: "map (map_option tone_id) (options rev rev ?c)
        = [Some ''v'', Some ''ltg'', Some ''g'', Some ''dkg'']"
    unfolding options_def v by (simp add: TONES_def)
  from p1 p2 k 1 2 show ?thesis by (intro conjI)
qed

text \<open>
  C5 as stated fails: \<open>handleGuess\<close> has no guard on \<open>showAnswer\<close>. Called again with
  the correct id in the state that already shows the result of a correct answer, it adds
  10 to the score a second time, raises the streak and the best streak to 2 and appends a
  second outcome to the history.
\<close>

theorem handleGuess_again_counterexample:
  "showAnswer answered_once \<and> score answered_once = 10
   \<and> handleGuess (QuizView_init generateFullDeck) ''v'' = Inr answered_once
   \<and> handleGuess answered_once ''v'' =
       Inr (answered_once\<lparr>score := 20, streak := 2, bestStreak := 2, history := [True, True]\<rparr>)"
proof -
  have i: "currentCardIndex answered_once = Some 0" "0 < length (deck answered_once)"
    "currentCardIndex (QuizView_init generateFullDeck) = Some 0"
    "0 < length (deck (QuizView_init generateFullDeck))"
    using fresh_deck_nonempty by (simp_all add: answered_once_def QuizView_init_def)
  have 1: "handleGuess (QuizView_init generateFullDeck) ''v'' = Inr answered_once"
    using fresh_deck_head
    by (simp add: handleGuess_result [OF i(3,4)] slice_last4_def)
       (simp add: answered_once_def QuizView_init_def)
  have 2: "handleGuess answered_once ''v'' =
       Inr (answered_once\<lparr>score := 20, streak := 2, bestStreak := 2, history := [True, True]\<rparr>)"
    using fresh_deck_head
    by (simp add: handleGuess_result [OF i(1,2)] slice_last4_def)
       (simp add: answered_once_def)
  from 1 2 show ?thesis by (simp add: answered_once_def)
qed

text \<open>
  C5 amended. While the result is showing, the page renders no answer button, so a click
  cannot submit a second answer: the state stays as it is. \<open>handleGuess\<close> itself does
  not read \<open>showAnswer\<close>: called directly in such a state (index inside the deck) it
  returns what it returns from the same state awaiting an answer, a state that still shows
  the result, with the deck and the current index unchanged and the score, streak, best
  streak and history updated as for a first answer.
\<close>

theorem handleGuess_while_showing:
  assumes "showAnswer st" and "currentCardIndex st = Some i" and "i < length (deck st)"
  shows "on_click st (ClickOption tid) = Inr st
         \<and> (\<exists>st'. handleGuess st tid = Inr st'
                \<and> handleGuess (st\<lparr>showAnswer := False\<rparr>) tid = Inr st'
                \<and> showAnswer st' \<and> deck st' = deck st
                \<and> currentCardIndex st' = currentCardIndex st
                \<and> score st' = (if tid = toneId (deck st ! i) then score st + 10 else score st)
                \<and> streak st' = (if tid = toneId (deck st ! i) then streak st + 1 else 0)
                \<and> bestStreak st' = (if tid = toneId (deck st ! i)
                                     then max (bestStreak st) (streak st + 1) else bestStreak st)
                \<and> history st' = slice_last4 (history st) @ [tid = toneId (deck st ! i)])"
proof -
  from assms(1) have c: "on_click st (ClickOption tid) = Inr st" by (simp add: on_click_def)
  have "currentCardIndex (st\<lparr>showAnswer := False\<rparr>) = Some i"
    and "i < length (deck (st\<lparr>showAnswer := False\<rparr>))"
    using assms(2,3) by simp_all
  then have "handleGuess (st\<lparr>showAnswer := False\<rparr>) tid = handleGuess st tid"
    by (simp add: handleGuess_result assms(2,3))
  with c show ?thesis by (simp add: handleGuess_result assms(2,3))
qed

theorem handleGuess_while_showing_witness:
  "showAnswer answered_once \<and> currentCardIndex answered_once = Some 0
   \<and> 0 < length (deck answered_once)
   \<and> on_click answered_once (ClickOption ''v'') = Inr answered_once
   \<and> (\<exists>st'. handleGuess answered_once ''v'' = Inr st' \<and> showAnswer st'
          \<and> currentCardIndex st' = Some 0 \<and> score st' = 20)"
proof -
  have a: "showAnswer answered_once" and b: "currentCardIndex answered_once = Some 0"
    by (simp_all add: answered_once_def)
  have c: "0 < length (deck answered_once)"
    using fresh_deck_nonempty by (simp add: answered_once_def)
  have v: "toneId (deck answered_once ! 0) = ''v''" "score answered_once = 10"
    using fresh_deck_head by (simp_all add: answered_once_def)
  from handleGuess_while_showing [OF a b c, of "''v''"] v b
  have "on_click answered_once (ClickOption ''v'') = Inr answered_once
     \<and> (\<exists>st'. handleGuess answered_once ''v'' = Inr st' \<and> showAnswer st'
          \<and> currentCardIndex st' = Some 0 \<and> score st' = 20)"
    by auto
  with a b c show ?thesis by (intro conjI) simp_all
qed

section \<open>Settings and the advisory call\<close>

lemma or_else_env:
  "or_else (env_value v) (JStr fallback) = JStr (spec_resolve_field None v fallback)"
  by (cases v) (simp_all add: or_else_def env_value_def spec_resolve_field_def)

lemma or_else_persisted:
  "or_else (map_option JStr p) (JStr (spec_resolve_field None v fallback))
     = JStr (spec_resolve_field p v fallback)"
  by (cases p; cases v) (simp_all add: or_else_def spec_resolve_field_def)

lemma getSettings_no_record:
  assumes "localStorage ''pccs_app_settings'' = None \<or> localStorage ''pccs_app_settings'' = Some []"
  shows "getSettings JSON_parse env localStorage =
     Inr \<lparr>baseUrl = JStr (spec_resolve_field None (VITE_BASE_URL env)
                             ''https://models.inference.ai.azure.com''),
          apiKey = JStr (spec_resolve_field None (VITE_API_KEY env) []),
          model = JStr (spec_resolve_field None (VITE_MODEL env) ''gpt-4o'')\<rparr>"
  using assms by (auto simp: getSettings_def Let_def or_else_env)

lemma getSettings_record:
  assumes "localStorage ''pccs_app_settings'' = Some blob" and "blob \<noteq> []"
    and "JSON_parse blob = Some (JObj kvs)"
    and "map_of (rev kvs) ''baseUrl'' = map_option JStr pb"
    and "map_of (rev kvs) ''apiKey'' = map_option JStr pa"
    and "map_of (rev kvs) ''model'' = map_option JStr pm"
  shows "getSettings JSON_parse env localStorage =
     Inr \<lparr>baseUrl = JStr (spec_resolve_field pb (VITE_BASE_URL env)
                             ''https://models.inference.ai.azure.com''),
          apiKey = JStr (spec_resolve_field pa (VITE_API_KEY env) []),
          model = JStr (spec_resolve_field pm (VITE_MODEL env) ''gpt-4o'')\<rparr>"
  using assms by (simp add: getSettings_def Let_def get_prop_def or_else_env or_else_persisted)

text \<open>
  C6. Resolution is per field, and an empty string counts as absent (the specification's
  "blank" is the empty string \<^verbatim>\<open>""\<close>). With no stored record (no item, or the empty
  text) every field is the build-time value when present and not empty, otherwise the
  fallback. With a stored record, an object whose fields \<open>baseUrl\<close>, \<open>apiKey\<close>, \<open>model\<close>
  are each absent or a string, every field is the persisted value when present and not
  empty, otherwise the build-time value when present and not empty, otherwise the fallback
  (the Azure endpoint, the empty credential, \<open>gpt-4o\<close>).
\<close>

theorem getSettings_precedence:
  "(localStorage ''pccs_app_settings'' = None \<or> localStorage ''pccs_app_settings'' = Some [] \<longrightarrow>
      getSettings JSON_parse env localStorage =
        Inr \<lparr>baseUrl = JStr (spec_resolve_field None (VITE_BASE_URL env)
                                ''https://models.inference.ai.azure.com''),
             apiKey = JStr (spec_resolve_field None (VITE_API_KEY env) []),
             model = JStr (spec_resolve_field None (VITE_MODEL env) ''gpt-4o'')\<rparr>)
   \<and> (localStorage ''pccs_app_settings'' = Some blob \<and> blob \<noteq> []
        \<and> JSON_parse blob = Some (JObj kvs)
        \<and> map_of (rev kvs) ''baseUrl'' = map_option JStr pb
        \<and> map_of (rev kvs) ''apiKey'' = map_option JStr pa
        \<and> map_of (rev kvs) ''model'' = map_option JStr pm \<longrightarrow>
      getSettings JSON_parse env localStorage =
        Inr \<lparr>baseUrl = JStr (spec_resolve_field pb (VITE_BASE_URL env)
                                ''https://models.inference.ai.azure.com''),
             apiKey = JStr (spec_resolve_field pa (VITE_API_KEY env) []),
             model = JStr (spec_resolve_field pm (VITE_MODEL env) ''gpt-4o'')\<rparr>)"
  using getSettings_no_record getSettings_record by blast

theorem getSettings_precedence_witness:
  \<open>getSettings JSON_parse_sample
      \<lparr>VITE_API_KEY = Some ''k'', VITE_BASE_URL = None, VITE_MODEL = Some ''gpt-4o''\<rparr>
      [''pccs_app_settings'' \<mapsto> ''{"model":""}'']
    = Inr \<lparr>baseUrl = JStr ''https://models.inference.ai.azure.com'', apiKey = JStr ''k'',
           model = JStr ''gpt-4o''\<rparr>
   \<and> getSettings JSON_parse_sample
      \<lparr>VITE_API_KEY = Some ''k'', VITE_BASE_URL = None, VITE_MODEL = Some ''gpt-4o''\<rparr>
      [''pccs_app_settings'' \<mapsto> ''{"model":"gpt-4o-mini"}'']
    = Inr \<lparr>baseUrl = JStr ''https://models.inference.ai.azure.com'', apiKey = JStr ''k'',
           model = JStr ''gpt-4o-mini''\<rparr>
   \<and> getSettings JSON_parse_sample
      \<lparr>VITE_API_KEY = None, VITE_BASE_URL = Some '''', VITE_MODEL = Some ''gpt-4o''\<rparr>
      Map.empty
    = Inr \<lparr>baseUrl = JStr ''https://models.inference.ai.azure.com'', apiKey = JStr '''',
           model = JStr ''gpt-4o''\<rparr>\<close>
proof -
  let ?env = "\<lparr>VITE_API_KEY = Some ''k'', VITE_BASE_URL = None, VITE_MODEL = Some ''gpt-4o''\<rparr>"
  let ?env' = "\<lparr>VITE_API_KEY = None, VITE_BASE_URL = Some '''', VITE_MODEL = Some ''gpt-4o''\<rparr>"
  have 1: \<open>getSettings JSON_parse_sample ?env [''pccs_app_settings'' \<mapsto> ''{"model":""}'']
    = Inr \<lparr>baseUrl = JStr ''https://models.inference.ai.azure.com'', apiKey = JStr ''k'',
           model = JStr ''gpt-4o''\<rparr>\<close>
    using getSettings_precedence [where localStorage = \<open>[''pccs_app_settings'' \<mapsto> ''{"model":""}'']\<close>
        and blob = \<open>''{"model":""}''\<close> and JSON_parse = JSON_parse_sample
        and kvs = "[(''model'', JStr '''')]" and pb = None and pa = None and pm = "Some ''''"
        and env = ?env]
    by (simp add: JSON_parse_sample_def spec_resolve_field_def)
  have 2: \<open>getSettings JSON_parse_sample ?env [''pccs_app_settings'' \<mapsto> ''{"model":"gpt-4o-mini"}'']
    = Inr \<lparr>baseUrl = JStr ''https://models.inference.ai.azure.com'', apiKey = JStr ''k'',
           model = JStr ''gpt-4o-mini''\<rparr>\<close>
    using getSettings_precedence [where
        localStorage = \<open>[''pccs_app_settings'' \<mapsto> ''{"model":"gpt-4o-mini"}'']\<close>
        and blob = \<open>''{"model":"gpt-4o-mini"}''\<close> and JSON_parse = JSON_parse_sample
        and kvs = "[(''model'', JStr ''gpt-4o-mini'')]" and pb = None and pa = None
        and pm = "Some ''gpt-4o-mini''" and env = ?env]
    by (simp add: JSON_parse_sample_def spec_resolve_field_def)
  have 3: "getSettings JSON_parse_sample ?env' Map.empty
    = Inr \<lparr>baseUrl = JStr ''https://models.inference.ai.azure.com'', apiKey = JStr '''',
           model = JStr ''gpt-4o''\<rparr>"
    using getSettings_precedence [where localStorage = Map.empty
        and JSON_parse = JSON_parse_sample and env = ?env']
    by (simp add: spec_resolve_field_def)
  from 1 2 3 show ?thesis by (intro conjI)
qed

text \<open>
  C8 fails on the code: \<open>getSettings\<close> calls \<open>JSON.parse\<close> outside any \<open>try\<close>. A stored
  text that is not JSON makes it throw a SyntaxError, and the stored text \<open>null\<close> a
  TypeError. With no item stored it returns, and a credential absent everywhere is the
  empty string.
\<close>

theorem getSettings_throws_on_malformed:
  "getSettings JSON_parse_sample \<lparr>VITE_API_KEY = None, VITE_BASE_URL = None, VITE_MODEL = None\<rparr>
      [''pccs_app_settings'' \<mapsto> ''{bad''] = Inl SyntaxError
   \<and> getSettings JSON_parse_sample \<lparr>VITE_API_KEY = None, VITE_BASE_URL = None, VITE_MODEL = None\<rparr>
      [''pccs_app_settings'' \<mapsto> ''null''] = Inl TypeError
   \<and> getSettings JSON_parse_sample \<lparr>VITE_API_KEY = None, VITE_BASE_URL = None, VITE_MODEL = None\<rparr>
      Map.empty
      = Inr \<lparr>baseUrl = JStr ''https://models.inference.ai.azure.com'', apiKey = JStr [],
             model = JStr ''gpt-4o''\<rparr>"
  by (simp add: getSettings_def JSON_parse_sample_def get_prop_def or_else_def env_value_def)

lemma getSettings_throws_iff:
  "(\<exists>e. getSettings JSON_parse env localStorage = Inl e) =
     (\<exists>blob. localStorage ''pccs_app_settings'' = Some blob \<and> blob \<noteq> []
        \<and> (JSON_parse blob = None \<or> JSON_parse blob = Some JNull))"
  by (cases "localStorage ''pccs_app_settings''")
     (auto simp: getSettings_def Let_def get_prop_def split: option.splits json.splits)

text \<open>
  C9. When the settings resolve and the credential is the empty string, \<open>callOpenAI\<close>
  returns the fixed message about the missing API key and issues no request, whatever the
  prompt, the system instruction and the network are.
\<close>

theorem callOpenAI_without_key:
  assumes "getSettings JSON_parse env localStorage = Inr settings"
    and "apiKey settings = JStr []"
  shows "callOpenAI JSON_parse env localStorage fetch type_error_message prompt systemInstruction
           = (Inr (JStr NO_API_KEY_MESSAGE), [])"
  using assms by (simp add: callOpenAI_def)

theorem callOpenAI_without_key_witness:
  "getSettings JSON_parse_sample \<lparr>VITE_API_KEY = None, VITE_BASE_URL = None, VITE_MODEL = None\<rparr>
      Map.empty
     = Inr \<lparr>baseUrl = JStr ''https://models.inference.ai.azure.com'', apiKey = JStr [],
            model = JStr ''gpt-4o''\<rparr>
   \<and> apiKey \<lparr>baseUrl = JStr ''https://models.inference.ai.azure.com'', apiKey = JStr [],
              model = JStr ''gpt-4o''\<rparr> = JStr []
   \<and> callOpenAI JSON_parse_sample \<lparr>VITE_API_KEY = None, VITE_BASE_URL = None, VITE_MODEL = None\<rparr>
        Map.empty (\<lambda>request. Response True 200 (Inr (JObj []))) ''null has no members''
        ''Which tone suits a calm room?'' ''You are a color advisor.''
     = (Inr (JStr NO_API_KEY_MESSAGE), [])"
proof -
  let ?env = "\<lparr>VITE_API_KEY = None, VITE_BASE_URL = None, VITE_MODEL = None\<rparr>"
  let ?s = "\<lparr>baseUrl = JStr ''https://models.inference.ai.azure.com'', apiKey = JStr [],
            model = JStr ''gpt-4o''\<rparr>"
  have g: "getSettings JSON_parse_sample ?env Map.empty = Inr ?s"
    by (simp add: getSettings_def or_else_def env_value_def)
  have k: "apiKey ?s = JStr []" by simp
  from callOpenAI_without_key [OF g k] g k show ?thesis by simp
qed

lemma callOpenAI_with_key:
  assumes "getSettings JSON_parse env localStorage = Inr settings"
    and "truthy (apiKey settings)" and "baseUrl settings = JStr b"
  shows "\<exists>request. snd (callOpenAI JSON_parse env localStorage fetch type_error_message prompt
           systemInstruction) = [request]
         \<and> req_authorization request = ''Bearer '' @ to_string (apiKey settings)
         \<and> payload_user (req_body request) = prompt"
  using assms by (simp add: callOpenAI_def Let_def)

lemma callOpenAI_at_most_one_request:
  "length (snd (callOpenAI JSON_parse env localStorage fetch type_error_message prompt
     systemInstruction)) \<le> 1"
  by (simp add: callOpenAI_def Let_def split: sum.splits json.splits)

text \<open>
  C10 fails on the code: the two copies of \<open>getSettings\<close> differ in their fallback
  constants. With nothing configured at build time and nothing stored, the copy in
  App.jsx resolves to the Azure endpoint and \<open>gpt-4o\<close> (the defaults the README
  documents), the copy in SeasonalColorAnalysis.jsx to the Google endpoint and
  \<open>gemini-1.5-flash\<close>.
\<close>

theorem getSettings_copies_differ:
  "getSettings JSON_parse \<lparr>VITE_API_KEY = None, VITE_BASE_URL = None, VITE_MODEL = None\<rparr> Map.empty
     = Inr \<lparr>baseUrl = JStr ''https://models.inference.ai.azure.com'', apiKey = JStr [],
            model = JStr ''gpt-4o''\<rparr>
   \<and> getSettings_Seasonal JSON_parse
       \<lparr>VITE_API_KEY = None, VITE_BASE_URL = None, VITE_MODEL = None\<rparr> Map.empty
     = Inr \<lparr>baseUrl = JStr ''https://generativelanguage.googleapis.com/v1beta/openai/'',
            apiKey = JStr [], model = JStr ''gemini-1.5-flash''\<rparr>
   \<and> getSettings JSON_parse \<lparr>VITE_API_KEY = None, VITE_BASE_URL = None, VITE_MODEL = None\<rparr> Map.empty
     \<noteq> getSettings_Seasonal JSON_parse
         \<lparr>VITE_API_KEY = None, VITE_BASE_URL = None, VITE_MODEL = None\<rparr> Map.empty"
  by (simp add: getSettings_def getSettings_Seasonal_def or_else_def env_value_def)

lemma getSettings_copies_agree:
  assumes "VITE_BASE_URL env = Some b" and "b \<noteq> []" and "VITE_MODEL env = Some m" and "m \<noteq> []"
  shows "getSettings_Seasonal JSON_parse env localStorage = getSettings JSON_parse env localStorage"
  using assms by (simp add: getSettings_def getSettings_Seasonal_def or_else_def env_value_def)

end
